theory Spec2Isabelle
  imports Main
begin

section \<open>Strings\<close>

text \<open>
  The program is \<^verbatim>\<open>assets/js/download.js\<close>. A JavaScript string is modelled as a
  \<^typ>\<open>string\<close>, each \<^typ>\<open>char\<close> standing for one code unit in the range 0..255.
  The methods below are the ones of \<^verbatim>\<open>String.prototype\<close> that the file calls.
\<close>

definition startsWith :: "string \<Rightarrow> string \<Rightarrow> bool" where
  "startsWith s p = (take (length p) s = p)"

text \<open>
  White space and line terminators that \<^verbatim>\<open>trim\<close> removes, as far as they are code
  units below 256: TAB, LF, VT, FF, CR, SPACE and NO-BREAK SPACE.
\<close>

definition isWhiteSpace :: "char \<Rightarrow> bool" where
  "isWhiteSpace c = (c \<in> set [CHR 0x09, CHR 0x0A, CHR 0x0B, CHR 0x0C, CHR 0x0D, CHR 0x20, CHR 0xA0])"

definition trimStart :: "string \<Rightarrow> string" where
  "trimStart s = dropWhile isWhiteSpace s"

definition trimEnd :: "string \<Rightarrow> string" where
  "trimEnd s = rev (dropWhile isWhiteSpace (rev s))"

definition trim :: "string \<Rightarrow> string" where
  "trim s = trimEnd (trimStart s)"

text \<open>\<^verbatim>\<open>s.includes(sub)\<close>.\<close>

fun includes_str :: "string \<Rightarrow> string \<Rightarrow> bool" where
  "includes_str [] sub = (sub = [])"
| "includes_str (c # cs) sub = (startsWith (c # cs) sub \<or> includes_str cs sub)"

text \<open>\<^verbatim>\<open>s.split(sep)\<close> for a separator of one character; the result is never empty.\<close>

fun split :: "char \<Rightarrow> string \<Rightarrow> string list" where
  "split sep [] = [Nil]"
| "split sep (c # cs) =
     (if c = sep then [] # split sep cs
      else (case split sep cs of
              [] \<Rightarrow> [c] # Nil
            | w # ws \<Rightarrow> (c # w) # ws))"

text \<open>\<^verbatim>\<open>parts[i]\<close>: reading past the end of an array gives \<^verbatim>\<open>undefined\<close>.\<close>

definition at :: "'a list \<Rightarrow> nat \<Rightarrow> 'a option" where
  "at xs i = (if i < length xs then Some (xs ! i) else None)"

text \<open>\<^verbatim>\<open>s.replace(/\/$/, '')\<close>: one slash at the very end is removed.\<close>

definition removeTrailingSlash :: "string \<Rightarrow> string" where
  "removeTrailingSlash s = (if s \<noteq> [] \<and> last s = CHR ''/'' then butlast s else s)"

text \<open>\<^verbatim>\<open>s.replace(/^\/skills\//, '_skills/')\<close>.\<close>

definition rewriteSkillsSegment :: "string \<Rightarrow> string" where
  "rewriteSkillsSegment s =
     (if startsWith s ''/skills/'' then ''_skills/'' @ drop (length ''/skills/'') s else s)"


section \<open>Ambient page state and platform\<close>

text \<open>
  What the script throws or what a platform call rejects with. \<open>Error msg\<close> is
  \<^verbatim>\<open>new Error(msg)\<close> of the script itself; the others come from the platform:
  \<^verbatim>\<open>new URL(s)\<close> on a string that is no URL, a rejected \<^verbatim>\<open>fetch\<close>, a rejected
  \<^verbatim>\<open>response.text()\<close>, a rejected \<^verbatim>\<open>zip.generateAsync\<close>.
\<close>

datatype error = Error string | InvalidURL | FetchRejected | TextRejected | GenerateRejected

text \<open>
  A settled response: \<^verbatim>\<open>response.ok\<close>, \<^verbatim>\<open>response.statusText\<close> and what
  \<^verbatim>\<open>response.text()\<close> resolves to (\<open>None\<close> when it rejects).
\<close>

datatype response = Response (ok: bool) (statusText: string) (body: "string option")

datatype zentry = Dir | File string

type_synonym zfiles = "(string \<times> zentry) list"

text \<open>
  The page the script runs in, read but never written by it:
  \<^item> \<open>siteBaseurl\<close>: \<^verbatim>\<open>window.siteBaseurl\<close>, a string that the layout injects, \<open>None\<close>
    when undefined;
  \<^item> \<open>baseHref\<close>: the \<^verbatim>\<open>href\<close> property of the first \<^verbatim>\<open>base\<close> element, \<open>None\<close> when
    the document has no such element (the property is the attribute resolved to an
    absolute URL, or the attribute as written when it does not parse as a URL; for a
    base element without the attribute it is the document's own base URL);
  \<^item> \<open>pathname\<close>: \<^verbatim>\<open>window.location.pathname\<close>;
  \<^item> \<open>urlPathname\<close>: \<^verbatim>\<open>new URL(s).pathname\<close>, \<open>None\<close> when the constructor throws;
  \<^item> \<open>fetch\<close>: how the request for a URL settles during one operation, \<open>None\<close> when
    the promise rejects (every request settles);
  \<^item> \<open>JSZip\<close>: whether \<^verbatim>\<open>window.JSZip\<close> is loaded;
  \<^item> \<open>generateAsync\<close>: whether serialising an archive resolves.
\<close>

record page =
  siteBaseurl :: "string option"
  baseHref :: "string option"
  pathname :: string
  urlPathname :: "string \<Rightarrow> string option"
  fetch :: "string \<Rightarrow> response option"
  JSZip :: bool
  generateAsync :: "zfiles \<Rightarrow> bool"


section \<open>Base prefix and content resolver\<close>

definition GITHUB_REPO :: string where
  "GITHUB_REPO = ''meleantonio/awesome-econ-ai-stuff''"

definition GITHUB_BRANCH :: string where
  "GITHUB_BRANCH = ''main''"

definition getBaseUrl :: "page \<Rightarrow> error + string" where
  "getBaseUrl env =
     (case siteBaseurl env of
        Some b \<Rightarrow> Inr b
      | None \<Rightarrow>
          (let byPath = (if includes_str (pathname env) ''/awesome-econ-ai-stuff''
                         then Inr ''/awesome-econ-ai-stuff'' else Inr '''')
           in case baseHref env of
                None \<Rightarrow> byPath
              | Some href \<Rightarrow>
                  if href = [] then byPath
                  else (case urlPathname env href of
                          None \<Rightarrow> Inl InvalidURL
                        | Some p \<Rightarrow> Inr (removeTrailingSlash p))))"

definition looksLikeHtml :: "string \<Rightarrow> bool" where
  "looksLikeHtml content =
     (startsWith (trim content) ''<!DOCTYPE'' \<or> startsWith (trim content) ''<html'')"

text \<open>
  The \<^verbatim>\<open>try\<close> block of \<^verbatim>\<open>fetchFileContent\<close>: \<open>Some content\<close> when it returns,
  \<open>None\<close> when it falls through to the fallback (response not ok) or when its
  \<^verbatim>\<open>catch\<close> swallows a rejection or the error thrown for HTML.
\<close>

definition directAttempt :: "response option \<Rightarrow> string option" where
  "directAttempt r =
     (case r of
        None \<Rightarrow> None
      | Some response \<Rightarrow>
          if ok response then
            (case body response of
               None \<Rightarrow> None
             | Some content \<Rightarrow> if looksLikeHtml content then None else Some content)
          else None)"

definition githubUrl :: "string \<Rightarrow> string" where
  "githubUrl path =
     ''https://raw.githubusercontent.com/'' @ GITHUB_REPO @ ''/'' @ GITHUB_BRANCH @ ''/'' @ path"

text \<open>
  \<^verbatim>\<open>fetchFileContent(path)\<close>: the URLs requested, in order, and the value the promise
  resolves with (\<open>Inr\<close>) or rejects with (\<open>Inl\<close>).
\<close>

definition fetchFileContent :: "page \<Rightarrow> string \<Rightarrow> string list \<times> (error + string)" where
  "fetchFileContent env path =
     (case getBaseUrl env of
        Inl e \<Rightarrow> ([], Inl e)
      | Inr baseUrl \<Rightarrow>
          (let url = baseUrl @ ''/'' @ path in
           case directAttempt (fetch env url) of
             Some content \<Rightarrow> ([url], Inr content)
           | None \<Rightarrow>
               ([url, githubUrl path],
                case fetch env (githubUrl path) of
                  None \<Rightarrow> Inl FetchRejected
                | Some response \<Rightarrow>
                    if \<not> ok response
                    then Inl (Error (''Failed to fetch '' @ path @ '' from GitHub: '' @ statusText response))
                    else (case body response of
                            None \<Rightarrow> Inl TextRejected
                          | Some text \<Rightarrow> Inr text))))"


section \<open>The catalog\<close>

record skill =
  path :: string
  name :: string

definition SKILLS_LIST :: "skill list" where
  "SKILLS_LIST =
     [\<lparr>path = ''_skills/analysis/r-econometrics/SKILL.md'', name = ''r-econometrics''\<rparr>,
      \<lparr>path = ''_skills/analysis/stata-regression/SKILL.md'', name = ''stata-regression''\<rparr>,
      \<lparr>path = ''_skills/analysis/python-panel-data/SKILL.md'', name = ''python-panel-data''\<rparr>,
      \<lparr>path = ''_skills/data/stata-data-cleaning/SKILL.md'', name = ''stata-data-cleaning''\<rparr>,
      \<lparr>path = ''_skills/data/api-data-fetcher/SKILL.md'', name = ''api-data-fetcher''\<rparr>,
      \<lparr>path = ''_skills/theory/latex-econ-model/SKILL.md'', name = ''latex-econ-model''\<rparr>,
      \<lparr>path = ''_skills/writing/academic-paper-writer/SKILL.md'', name = ''academic-paper-writer''\<rparr>,
      \<lparr>path = ''_skills/writing/latex-tables/SKILL.md'', name = ''latex-tables''\<rparr>,
      \<lparr>path = ''_skills/communication/beamer-presentation/SKILL.md'', name = ''beamer-presentation''\<rparr>,
      \<lparr>path = ''_skills/communication/econ-visualization/SKILL.md'', name = ''econ-visualization''\<rparr>,
      \<lparr>path = ''_skills/ideation/research-ideation/SKILL.md'', name = ''research-ideation''\<rparr>,
      \<lparr>path = ''_skills/literature/lit-review-assistant/SKILL.md'', name = ''lit-review-assistant''\<rparr>]"


section \<open>The archive\<close>

text \<open>
  JSZip is a library the page loads; the script uses \<^verbatim>\<open>new JSZip()\<close>, \<^verbatim>\<open>folder\<close>,
  \<^verbatim>\<open>file\<close> and \<^verbatim>\<open>generateAsync\<close>. An archive is its \<^verbatim>\<open>files\<close> object, entry names in
  the order of their creation; a handle is the archive together with a root, the prefix
  that the handle puts before every name. All handles of one archive share its entries.
\<close>

definition forceTrailingSlash :: "string \<Rightarrow> string" where
  "forceTrailingSlash n = (if n \<noteq> [] \<and> last n = CHR ''/'' then n else n @ ''/'')"

text \<open>\<^verbatim>\<open>files[k] = v\<close>: an entry of that name is replaced where it stands.\<close>

fun assign :: "string \<Rightarrow> zentry \<Rightarrow> zfiles \<Rightarrow> zfiles" where
  "assign k v [] = [(k, v)]"
| "assign k v ((k', v') # rest) =
     (if k' = k then (k, v) # rest else (k', v') # assign k v rest)"

text \<open>A directory entry is created only when no entry has its name.\<close>

definition folderAdd :: "zfiles \<Rightarrow> string \<Rightarrow> zfiles" where
  "folderAdd files n =
     (let n' = forceTrailingSlash n
      in if map_of files n' = None then assign n' Dir files else files)"

text \<open>
  \<^verbatim>\<open>handle.folder(arg)\<close>: the handle itself when \<open>arg\<close> is undefined or empty, otherwise
  the handle of the directory \<open>root + arg\<close>, created when missing.
\<close>

definition folder :: "zfiles \<times> string \<Rightarrow> string option \<Rightarrow> zfiles \<times> string" where
  "folder h arg =
     (case arg of
        None \<Rightarrow> h
      | Some a \<Rightarrow>
          if a = [] then h
          else (folderAdd (fst h) (snd h @ a), forceTrailingSlash (snd h @ a)))"

text \<open>
  \<^verbatim>\<open>handle.file(n, data)\<close> with a string: the text is stored under \<open>root + n\<close>. (The
  directory the name lies in is the handle's root, which \<open>folder\<close> has created.)
\<close>

definition zfile :: "zfiles \<times> string \<Rightarrow> string \<Rightarrow> string \<Rightarrow> zfiles" where
  "zfile h n data = assign (snd h @ n) (File data) (fst h)"

definition isFile :: "string \<times> zentry \<Rightarrow> bool" where
  "isFile e = (case snd e of Dir \<Rightarrow> False | File data \<Rightarrow> True)"

definition fileCount :: "zfiles \<Rightarrow> nat" where
  "fileCount files = length (filter isFile files)"


section \<open>Download of all skills\<close>

text \<open>
  The callback that \<^verbatim>\<open>SKILLS_LIST.map\<close> runs for one skill, from the moment its
  \<^verbatim>\<open>fetchFileContent\<close> has settled: it has no \<^verbatim>\<open>await\<close> after that point, so it runs
  as one step on the archive. A rejection is caught and leaves the archive as it is.
\<close>

definition addSkill :: "page \<Rightarrow> string \<Rightarrow> skill \<Rightarrow> zfiles \<Rightarrow> zfiles" where
  "addSkill env skillsFolder skill files =
     (case snd (fetchFileContent env (path skill)) of
        Inl e \<Rightarrow> files
      | Inr content \<Rightarrow>
          (let pathParts = split CHR ''/'' (path skill);
               category = at pathParts 1;
               skillName = at pathParts 2;
               categoryFolder = folder (files, skillsFolder) category;
               skillFolder = folder categoryFolder skillName
           in zfile skillFolder ''SKILL.md'' content))"

text \<open>
  \<^verbatim>\<open>Promise.all\<close> over the callbacks: the requests are outstanding together and the
  callbacks complete in an order the network decides. \<open>order\<close> lists the indices of
  \<open>SKILLS_LIST\<close> in the order of completion; \<open>isSchedule\<close> says that every entry
  completes exactly once.
\<close>

definition isSchedule :: "nat list \<Rightarrow> bool" where
  "isSchedule order = (distinct order \<and> set order = set [0..<length SKILLS_LIST])"

definition assemble :: "page \<Rightarrow> nat list \<Rightarrow> zfiles" where
  "assemble env order =
     (let skillsFolder = folder ([], []) (Some ''skills'')
      in fold (addSkill env (snd skillsFolder)) (map (\<lambda>i. SKILLS_LIST ! i) order) (fst skillsFolder))"

text \<open>A blob handed to the browser for saving, and the part of the page the script writes.\<close>

datatype blob = ZipBlob zfiles | TextBlob string

record button =
  disabled :: bool
  textContent :: string

record ui =
  allBtn :: "button option"
  skillBtn :: "button option"
  alerts :: "string list"
  saved :: "(string \<times> blob) list"

definition busy :: "button option \<Rightarrow> button option" where
  "busy b = map_option (\<lambda>x. x\<lparr>disabled := True, textContent := ''Downloading...''\<rparr>) b"

definition idle :: "string \<Rightarrow> button option \<Rightarrow> button option" where
  "idle label b = map_option (\<lambda>x. x\<lparr>disabled := False, textContent := label\<rparr>) b"

text \<open>The \<^verbatim>\<open>try\<close> block of \<^verbatim>\<open>downloadAllSkills\<close> up to the serialised archive.\<close>

definition bulkTry :: "page \<Rightarrow> nat list \<Rightarrow> error + zfiles" where
  "bulkTry env order =
     (case getBaseUrl env of
        Inl e \<Rightarrow> Inl e
      | Inr baseUrl \<Rightarrow>
          if \<not> JSZip env then Inl (Error ''JSZip library not loaded'')
          else (let archive = assemble env order
                in if generateAsync env archive then Inr archive else Inl GenerateRejected))"

text \<open>
  \<^verbatim>\<open>downloadAllSkills()\<close>: the error its \<^verbatim>\<open>catch\<close> received, if any, and the page
  afterwards. The promise it returns never rejects.
\<close>

definition downloadAllSkills :: "page \<Rightarrow> nat list \<Rightarrow> ui \<Rightarrow> error option \<times> ui" where
  "downloadAllSkills env order u =
     (let u1 = u\<lparr>allBtn := busy (allBtn u)\<rparr>
      in case bulkTry env order of
           Inr archive \<Rightarrow>
             (None, u1\<lparr>saved := saved u1 @ [(''awesome-econ-ai-skills.zip'', ZipBlob archive)],
                       allBtn := idle ''Download All Skills'' (allBtn u1)\<rparr>)
         | Inl e \<Rightarrow>
             (Some e, u1\<lparr>alerts := alerts u1 @ [''Failed to download skills. Please try again.''],
                         allBtn := idle ''Download All Skills'' (allBtn u1)\<rparr>))"


section \<open>Download of one skill\<close>

definition deriveSkillPath :: "string \<Rightarrow> string \<Rightarrow> string" where
  "deriveSkillPath currentPath baseUrl =
     (let skillPath = (if baseUrl \<noteq> [] \<and> startsWith currentPath baseUrl
                       then drop (length baseUrl) currentPath else currentPath);
          skillPath = removeTrailingSlash skillPath @ ''/SKILL.md''
      in rewriteSkillsSegment skillPath)"

text \<open>
  The derivation of the target path in \<^verbatim>\<open>downloadSkillFile\<close>, as a step on the ambient
  state: the path (or what \<^verbatim>\<open>getBaseUrl\<close> threw) and the state it leaves.
\<close>

definition skillPathStep :: "page \<Rightarrow> (error + string) \<times> page" where
  "skillPathStep env =
     (case getBaseUrl env of
        Inl e \<Rightarrow> (Inl e, env)
      | Inr baseUrl \<Rightarrow> (Inr (deriveSkillPath (pathname env) baseUrl), env))"

text \<open>The \<^verbatim>\<open>try\<close> block of \<^verbatim>\<open>downloadSkillFile\<close>: the file name and the text to save.\<close>

definition singleTry :: "page \<Rightarrow> error + (string \<times> string)" where
  "singleTry env =
     (case fst (skillPathStep env) of
        Inl e \<Rightarrow> Inl e
      | Inr skillPath \<Rightarrow>
          (case snd (fetchFileContent env skillPath) of
             Inl e \<Rightarrow> Inl e
           | Inr content \<Rightarrow>
               (let pathParts = split CHR ''/'' skillPath;
                    segment = (if length pathParts < 2 then None
                               else at pathParts (length pathParts - 2));
                    skillName = (case segment of
                                   None \<Rightarrow> ''skill''
                                 | Some n \<Rightarrow> if n = [] then ''skill'' else n)
                in Inr (skillName @ ''-SKILL.md'', content))))"

definition downloadSkillFile :: "page \<Rightarrow> ui \<Rightarrow> error option \<times> ui" where
  "downloadSkillFile env u =
     (let u1 = u\<lparr>skillBtn := busy (skillBtn u)\<rparr>
      in case singleTry env of
           Inr (filename, content) \<Rightarrow>
             (None, u1\<lparr>saved := saved u1 @ [(filename, TextBlob content)],
                       skillBtn := idle ''Download SKILL.md'' (skillBtn u1)\<rparr>)
         | Inl e \<Rightarrow>
             (Some e, u1\<lparr>alerts := alerts u1 @ [''Failed to download SKILL.md file. Please try again.''],
                         skillBtn := idle ''Download SKILL.md'' (skillBtn u1)\<rparr>))"


section \<open>Notions used in the statements\<close>

text \<open>An entry fails to resolve when the promise of \<^verbatim>\<open>fetchFileContent\<close> rejects.\<close>

definition failsToResolve :: "page \<Rightarrow> skill \<Rightarrow> bool" where
  "failsToResolve env s = isl (snd (fetchFileContent env (path s)))"

text \<open>The texts stored in an archive, by entry name.\<close>

definition fileMap :: "zfiles \<Rightarrow> string \<Rightarrow> string option" where
  "fileMap files k = (case map_of files k of Some (File d) \<Rightarrow> Some d | _ \<Rightarrow> None)"

text \<open>The root of the handle that \<open>folder\<close> returns, and the entry name \<open>addSkill\<close> writes.\<close>

definition subRoot :: "string \<Rightarrow> string option \<Rightarrow> string" where
  "subRoot root arg = snd (folder ([], root) arg)"

definition targetName :: "string \<Rightarrow> string \<Rightarrow> string" where
  "targetName skillsFolder p =
     (let pathParts = split CHR ''/'' p
      in subRoot (subRoot skillsFolder (at pathParts 1)) (at pathParts 2) @ ''SKILL.md'')"


section \<open>Example pages\<close>

text \<open>
  A skill page of the deployed site: the layout has injected the base path, the site
  and the raw-content host answer 404 for the three analysis skills and serve every
  other file.
\<close>

definition examplePage :: page where
  "examplePage =
     \<lparr>siteBaseurl = Some ''/awesome-econ-ai-stuff'',
      baseHref = None,
      pathname = ''/awesome-econ-ai-stuff/skills/analysis/r-econometrics/'',
      urlPathname = (\<lambda>s. if s = ''https://example.org/docs/'' then Some ''/docs/'' else None),
      fetch = (\<lambda>u. if includes_str u ''/analysis/'' then Some (Response False ''Not Found'' None)
                    else Some (Response True ''OK'' (Some ''# Skill''))),
      JSZip = True,
      generateAsync = (\<lambda>files. True)\<rparr>"

text \<open>The same page without the injected base path: with a base tag, and with neither.\<close>

definition baseTagPage :: page where
  "baseTagPage = examplePage\<lparr>siteBaseurl := None, baseHref := Some ''https://example.org/docs/''\<rparr>"

definition plainPage :: page where
  "plainPage = examplePage\<lparr>siteBaseurl := None\<rparr>"

definition localPage :: page where
  "localPage = examplePage\<lparr>siteBaseurl := None, pathname := ''/skills/analysis/r-econometrics/''\<rparr>"

text \<open>
  A base element without an \<^verbatim>\<open>href\<close> attribute, on the page
  \<^verbatim>\<open>https://example.org/awesome-econ-ai-stuff/skills/analysis/r-econometrics/\<close>: the
  \<^verbatim>\<open>href\<close> property is the URL of the page.
\<close>

definition bareBasePage :: page where
  "bareBasePage =
     examplePage\<lparr>siteBaseurl := None,
       baseHref := Some ''https://example.org/awesome-econ-ai-stuff/skills/analysis/r-econometrics/'',
       urlPathname := (\<lambda>s. if s = ''https://example.org/awesome-econ-ai-stuff/skills/analysis/r-econometrics/''
                           then Some ''/awesome-econ-ai-stuff/skills/analysis/r-econometrics/''
                           else None)\<rparr>"

text \<open>A base tag whose \<^verbatim>\<open>href\<close> is no URL, on a page whose requests are all rejected.\<close>

definition brokenBasePage :: page where
  "brokenBasePage = examplePage\<lparr>siteBaseurl := None, baseHref := Some ''http://['', fetch := (\<lambda>u. None)\<rparr>"

text \<open>The site answers every request with a rendered page; the raw-content host serves the file.\<close>

definition renderedPage :: page where
  "renderedPage =
     examplePage\<lparr>fetch := (\<lambda>u. if startsWith u ''https://raw.githubusercontent.com/''
                              then Some (Response True ''OK'' (Some ''# Skill''))
                              else Some (Response True ''OK''
                                     (Some (CHR 0x0A # '' <!DOCTYPE html><html></html>''))))\<rparr>"

text \<open>The site answers 404; the raw-content host answers 200 with an HTML page.\<close>

definition htmlFallbackPage :: page where
  "htmlFallbackPage =
     examplePage\<lparr>fetch := (\<lambda>u. if startsWith u ''https://raw.githubusercontent.com/''
                              then Some (Response True ''OK'' (Some ''<!DOCTYPE html><title>Busy</title>''))
                              else Some (Response False ''Not Found'' None))\<rparr>"

text \<open>No network: every request is rejected.\<close>

definition offlinePage :: page where
  "offlinePage = examplePage\<lparr>fetch := (\<lambda>u. None)\<rparr>"

text \<open>An order of completion, and a page with both buttons idle.\<close>

definition exampleOrder :: "nat list" where
  "exampleOrder = [7, 3, 11, 0, 5, 9, 1, 10, 2, 8, 4, 6]"

definition exampleUi :: ui where
  "exampleUi =
     \<lparr>allBtn = Some \<lparr>disabled = False, textContent = ''Download All Skills''\<rparr>,
      skillBtn = Some \<lparr>disabled = False, textContent = ''Download SKILL.md''\<rparr>,
      alerts = [],
      saved = []\<rparr>"


section \<open>Facts about the string operations\<close>

lemma startsWith_iff: "startsWith s p \<longleftrightarrow> (\<exists>r. s = p @ r)"
  unfolding startsWith_def
proof
  assume "take (length p) s = p"
  then have "s = p @ drop (length p) s" by (metis append_take_drop_id)
  then show "\<exists>r. s = p @ r" ..
next
  assume "\<exists>r. s = p @ r"
  then show "take (length p) s = p" by auto
qed

lemma includes_str_iff: "includes_str s sub \<longleftrightarrow> (\<exists>u v. s = u @ sub @ v)"
proof (induction s)
  case Nil
  then show ?case by auto
next
  case (Cons c cs)
  show ?case
  proof
    assume "includes_str (c # cs) sub"
    then consider "startsWith (c # cs) sub" | "includes_str cs sub" by auto
    then show "\<exists>u v. c # cs = u @ sub @ v"
    proof cases
      case 1
      then obtain r where "c # cs = sub @ r" by (auto simp: startsWith_iff)
      then have "c # cs = [] @ sub @ r" by simp
      then show ?thesis by blast
    next
      case 2
      then obtain u v where "cs = u @ sub @ v" using Cons.IH by blast
      then have "c # cs = (c # u) @ sub @ v" by simp
      then show ?thesis by blast
    qed
  next
    assume "\<exists>u v. c # cs = u @ sub @ v"
    then obtain u v where uv: "c # cs = u @ sub @ v" by blast
    show "includes_str (c # cs) sub"
    proof (cases u)
      case Nil
      with uv have "startsWith (c # cs) sub" by (auto simp: startsWith_iff)
      then show ?thesis by simp
    next
      case (Cons a u')
      with uv have "cs = u' @ sub @ v" by simp
      then have "includes_str cs sub" using Cons.IH by blast
      then show ?thesis by simp
    qed
  qed
qed

lemma trimEnd_prefix: "\<exists>r. t = trimEnd t @ r"
proof -
  have "rev t = takeWhile isWhiteSpace (rev t) @ dropWhile isWhiteSpace (rev t)" by simp
  then have "t = rev (takeWhile isWhiteSpace (rev t) @ dropWhile isWhiteSpace (rev t))"
    by (metis rev_rev_ident)
  then have "t = trimEnd t @ rev (takeWhile isWhiteSpace (rev t))"
    unfolding trimEnd_def rev_append .
  then show ?thesis ..
qed

lemma trimEnd_keeps:
  assumes "p \<noteq> []" and "\<not> isWhiteSpace (last p)"
  shows "\<exists>r'. trimEnd (p @ r) = p @ r'"
proof -
  have hd: "\<not> isWhiteSpace (hd (rev p))" using assms by (simp add: hd_rev)
  have np: "rev p \<noteq> []" using assms by simp
  have dp: "dropWhile isWhiteSpace (rev p) = rev p"
    using hd np by (cases "rev p") auto
  show ?thesis
  proof (cases "\<forall>x\<in>set (rev r). isWhiteSpace x")
    case True
    then have "dropWhile isWhiteSpace (rev r @ rev p) = dropWhile isWhiteSpace (rev p)"
      by (intro dropWhile_append2) blast
    then have "dropWhile isWhiteSpace (rev r @ rev p) = rev p"
      using dp by simp
    then show ?thesis by (simp add: trimEnd_def)
  next
    case False
    then obtain x where "x \<in> set (rev r)" and "\<not> isWhiteSpace x" by blast
    then have "dropWhile isWhiteSpace (rev r @ rev p) = dropWhile isWhiteSpace (rev r) @ rev p"
      by (rule dropWhile_append1)
    then show ?thesis by (simp add: trimEnd_def)
  qed
qed

lemma startsWith_trim:
  assumes "p \<noteq> []" and "\<not> isWhiteSpace (last p)"
  shows "startsWith (trim s) p \<longleftrightarrow> startsWith (trimStart s) p"
proof
  assume "startsWith (trim s) p"
  then obtain r where r: "trimEnd (trimStart s) = p @ r" by (auto simp: startsWith_iff trim_def)
  obtain r' where "trimStart s = trimEnd (trimStart s) @ r'" using trimEnd_prefix by blast
  with r have "trimStart s = p @ (r @ r')" by simp
  then show "startsWith (trimStart s) p" unfolding startsWith_iff by blast
next
  assume "startsWith (trimStart s) p"
  then obtain r where r: "trimStart s = p @ r" by (auto simp: startsWith_iff)
  obtain r' where "trimEnd (p @ r) = p @ r'" using trimEnd_keeps[OF assms] by blast
  with r show "startsWith (trim s) p" by (auto simp: startsWith_iff trim_def)
qed

lemma looksLikeHtml_iff:
  "looksLikeHtml content \<longleftrightarrow>
     (startsWith (trimStart content) ''<!DOCTYPE'' \<or> startsWith (trimStart content) ''<html'')"
proof -
  have a: "startsWith (trim content) ''<!DOCTYPE'' \<longleftrightarrow> startsWith (trimStart content) ''<!DOCTYPE''"
    by (rule startsWith_trim) (simp_all add: isWhiteSpace_def)
  have b: "startsWith (trim content) ''<html'' \<longleftrightarrow> startsWith (trimStart content) ''<html''"
    by (rule startsWith_trim) (simp_all add: isWhiteSpace_def)
  show ?thesis unfolding looksLikeHtml_def a b ..
qed

lemma removeTrailingSlash_slash: "removeTrailingSlash (q @ ''/'') = q"
  by (simp add: removeTrailingSlash_def)

lemma removeTrailingSlash_other: "s = [] \<or> last s \<noteq> CHR ''/'' \<Longrightarrow> removeTrailingSlash s = s"
  by (auto simp add: removeTrailingSlash_def)


section \<open>Facts about the archive\<close>

lemma map_of_assign: "map_of (assign k v fs) = (map_of fs)(k \<mapsto> v)"
  by (induction fs) auto

lemma keys_assign: "fst ` set (assign k v fs) = insert k (fst ` set fs)"
  by (simp add: dom_map_of_conv_image_fst[symmetric] map_of_assign)

lemma distinct_assign: "distinct (map fst fs) \<Longrightarrow> distinct (map fst (assign k v fs))"
proof (induction fs)
  case Nil
  then show ?case by simp
next
  case (Cons a fs)
  obtain k' v' where a: "a = (k', v')" by (cases a)
  show ?case
  proof (cases "k' = k")
    case True
    then show ?thesis using Cons.prems a by simp
  next
    case False
    have "k' \<notin> fst ` set (assign k v fs)" using False Cons.prems a by (simp add: keys_assign)
    then show ?thesis using False Cons a by simp
  qed
qed

lemma fileMap_assign_File: "fileMap (assign k (File d) fs) = (fileMap fs)(k \<mapsto> d)"
  by (rule ext) (simp add: fileMap_def map_of_assign)

lemma fileMap_folderAdd: "fileMap (folderAdd fs n) = fileMap fs"
  by (rule ext) (auto simp add: fileMap_def folderAdd_def Let_def map_of_assign)

lemma distinct_folderAdd: "distinct (map fst fs) \<Longrightarrow> distinct (map fst (folderAdd fs n))"
  by (simp add: folderAdd_def Let_def distinct_assign)

lemma fileMap_folder: "fileMap (fst (folder h arg)) = fileMap (fst h)"
  by (cases arg) (simp_all add: folder_def fileMap_folderAdd)

lemma distinct_folder: "distinct (map fst (fst h)) \<Longrightarrow> distinct (map fst (fst (folder h arg)))"
  by (cases arg) (simp_all add: folder_def distinct_folderAdd)

lemma snd_folder: "snd (folder h arg) = subRoot (snd h) arg"
  by (cases arg) (simp_all add: folder_def subRoot_def)

lemma fileMap_addSkill:
  "fileMap (addSkill env root s fs) =
     (case snd (fetchFileContent env (path s)) of
        Inl e \<Rightarrow> fileMap fs
      | Inr content \<Rightarrow> (fileMap fs)(targetName root (path s) \<mapsto> content))"
proof (cases "snd (fetchFileContent env (path s))")
  case (Inl e)
  then show ?thesis by (simp add: addSkill_def)
next
  case (Inr content)
  then show ?thesis
    by (simp add: addSkill_def Let_def zfile_def fileMap_assign_File fileMap_folder
        snd_folder targetName_def)
qed

lemma distinct_addSkill:
  "distinct (map fst fs) \<Longrightarrow> distinct (map fst (addSkill env root s fs))"
  by (cases "snd (fetchFileContent env (path s))")
     (simp_all add: addSkill_def Let_def zfile_def distinct_assign distinct_folder)

lemma distinct_fold_addSkill:
  "distinct (map fst fs) \<Longrightarrow> distinct (map fst (fold (addSkill env root) ss fs))"
  by (induction ss arbitrary: fs) (simp_all add: distinct_addSkill)

lemma fileMap_fold_other:
  assumes "\<forall>s\<in>set ss. \<not> failsToResolve env s \<longrightarrow> targetName root (path s) \<noteq> k"
  shows "fileMap (fold (addSkill env root) ss fs) k = fileMap fs k"
  using assms
proof (induction ss arbitrary: fs)
  case Nil
  then show ?case by simp
next
  case (Cons x xs)
  have "fileMap (addSkill env root x fs) k = fileMap fs k"
    using Cons.prems
    by (cases "snd (fetchFileContent env (path x))")
       (auto simp add: fileMap_addSkill failsToResolve_def)
  then show ?case using Cons by simp
qed

lemma fileMap_fold_written:
  assumes "s \<in> set ss" and "snd (fetchFileContent env (path s)) = Inr content"
    and "inj_on (\<lambda>x. targetName root (path x)) (set ss)"
  shows "fileMap (fold (addSkill env root) ss fs) (targetName root (path s)) = Some content"
  using assms
proof (induction ss arbitrary: fs)
  case Nil
  then show ?case by simp
next
  case (Cons x xs)
  have inj: "inj_on (\<lambda>x. targetName root (path x)) (set xs)"
    using Cons.prems(3) by (simp add: inj_on_def)
  show ?case
  proof (cases "s \<in> set xs")
    case True
    then show ?thesis using Cons.IH[OF True Cons.prems(2) inj] by simp
  next
    case False
    then have sx: "s = x" using Cons.prems(1) by simp
    have other: "\<forall>y\<in>set xs. \<not> failsToResolve env y \<longrightarrow>
        targetName root (path y) \<noteq> targetName root (path s)"
    proof (intro ballI impI)
      fix y assume y: "y \<in> set xs"
      show "targetName root (path y) \<noteq> targetName root (path s)"
      proof
        assume "targetName root (path y) = targetName root (path s)"
        then have "y = s" using Cons.prems(3) y sx by (auto simp add: inj_on_def)
        then show False using y False by simp
      qed
    qed
    have "fileMap (fold (addSkill env root) xs (addSkill env root x fs)) (targetName root (path s))
        = fileMap (addSkill env root x fs) (targetName root (path s))"
      by (rule fileMap_fold_other[OF other])
    also have "\<dots> = Some content"
      using Cons.prems(2) sx by (simp add: fileMap_addSkill)
    finally show ?thesis by simp
  qed
qed

lemma dom_fileMap_fold:
  "dom (fileMap (fold (addSkill env root) ss fs)) =
     dom (fileMap fs) \<union> (\<lambda>x. targetName root (path x)) ` {s \<in> set ss. \<not> failsToResolve env s}"
proof (induction ss arbitrary: fs)
  case Nil
  then show ?case by simp
next
  case (Cons x xs)
  have "dom (fileMap (addSkill env root x fs)) =
      dom (fileMap fs) \<union> (if failsToResolve env x then {} else {targetName root (path x)})"
    by (cases "snd (fetchFileContent env (path x))")
       (auto simp add: fileMap_addSkill failsToResolve_def)
  then show ?case using Cons.IH[of "addSkill env root x fs"] by auto
qed

lemma fileCount_card:
  "distinct (map fst fs) \<Longrightarrow> fileCount fs = card (dom (fileMap fs))"
proof (induction fs)
  case Nil
  then show ?case by (simp add: fileCount_def fileMap_def)
next
  case (Cons a fs)
  obtain k v where a: "a = (k, v)" by (cases a)
  have k: "k \<notin> fst ` set fs" and d: "distinct (map fst fs)" using Cons.prems a by auto
  have fin: "finite (dom (fileMap fs))"
  proof (rule finite_subset)
    show "dom (fileMap fs) \<subseteq> fst ` set fs"
      by (auto simp add: fileMap_def dom_def split: option.splits dest!: map_of_SomeD intro: rev_image_eqI)
    show "finite (fst ` set fs)" by simp
  qed
  have nk: "k \<notin> dom (fileMap fs)"
    using k by (auto simp add: fileMap_def dom_def split: option.splits dest!: map_of_SomeD intro: rev_image_eqI)
  have ih: "fileCount fs = card (dom (fileMap fs))" using Cons.IH d by simp
  show ?case
  proof (cases v)
    case Dir
    have "dom (fileMap (a # fs)) = dom (fileMap fs)"
      using a Dir nk by (auto simp add: fileMap_def dom_def split: option.splits if_splits)
    then show ?thesis using ih a Dir by (simp add: fileCount_def isFile_def)
  next
    case (File data)
    have "dom (fileMap (a # fs)) = insert k (dom (fileMap fs))"
      using a File by (auto simp add: fileMap_def dom_def split: option.splits if_splits)
    then show ?thesis using ih a File nk fin by (simp add: fileCount_def isFile_def)
  qed
qed


section \<open>Facts about the catalog\<close>

lemma skillsFolder_handle: "folder ([], []) (Some ''skills'') = ([(''skills/'', Dir)], ''skills/'')"
  by (simp add: folder_def folderAdd_def forceTrailingSlash_def)

lemma assemble_fold:
  "assemble env order =
     fold (addSkill env ''skills/'') (map (\<lambda>i. SKILLS_LIST ! i) order) [(''skills/'', Dir)]"
  by (simp add: assemble_def skillsFolder_handle)

lemma catalog_targets:
  "map (\<lambda>s. targetName ''skills/'' (path s)) SKILLS_LIST =
     [''skills/analysis/r-econometrics/SKILL.md'',
      ''skills/analysis/stata-regression/SKILL.md'',
      ''skills/analysis/python-panel-data/SKILL.md'',
      ''skills/data/stata-data-cleaning/SKILL.md'',
      ''skills/data/api-data-fetcher/SKILL.md'',
      ''skills/theory/latex-econ-model/SKILL.md'',
      ''skills/writing/academic-paper-writer/SKILL.md'',
      ''skills/writing/latex-tables/SKILL.md'',
      ''skills/communication/beamer-presentation/SKILL.md'',
      ''skills/communication/econ-visualization/SKILL.md'',
      ''skills/ideation/research-ideation/SKILL.md'',
      ''skills/literature/lit-review-assistant/SKILL.md'']"
  by (simp add: SKILLS_LIST_def targetName_def subRoot_def folder_def at_def forceTrailingSlash_def)

lemma catalog_distinct_targets: "distinct (map (\<lambda>s. targetName ''skills/'' (path s)) SKILLS_LIST)"
  unfolding catalog_targets by simp

lemma catalog_inj: "inj_on (\<lambda>s. targetName ''skills/'' (path s)) (set SKILLS_LIST)"
  using catalog_distinct_targets by (simp add: distinct_map)

lemma catalog_distinct: "distinct SKILLS_LIST"
  using catalog_distinct_targets by (simp add: distinct_map)

lemma catalog_segments:
  "\<forall>s\<in>set SKILLS_LIST. \<exists>category skillName.
      at (split CHR ''/'' (path s)) 1 = Some category \<and>
      at (split CHR ''/'' (path s)) 2 = Some skillName \<and>
      targetName ''skills/'' (path s) = ''skills/'' @ category @ ''/'' @ skillName @ ''/SKILL.md''"
  by (simp add: SKILLS_LIST_def targetName_def subRoot_def folder_def at_def forceTrailingSlash_def)

lemma schedule_set:
  assumes "isSchedule order"
  shows "set (map (\<lambda>i. SKILLS_LIST ! i) order) = set SKILLS_LIST"
proof -
  have "set (map (\<lambda>i. SKILLS_LIST ! i) order) = (\<lambda>i. SKILLS_LIST ! i) ` {0..<length SKILLS_LIST}"
    using assms by (simp add: isSchedule_def)
  also have "\<dots> = set SKILLS_LIST"
    using nth_image[of "length SKILLS_LIST" SKILLS_LIST] by simp
  finally show ?thesis .
qed


section \<open>Facts about the two operations\<close>

lemma directAttempt_html:
  "looksLikeHtml content \<Longrightarrow> directAttempt (Some (Response True st (Some content))) = None"
  by (simp add: directAttempt_def)

lemma singleTry_fails:
  assumes "snd (fetchFileContent env p) = Inl e" and "fst (skillPathStep env) = Inr p"
  shows "singleTry env = Inl e"
  using assms by (simp add: singleTry_def)

lemma rewriteSkillsSegment_skills: "rewriteSkillsSegment (''/skills/'' @ t) = ''_skills/'' @ t"
  by (simp add: rewriteSkillsSegment_def startsWith_def)

lemma fetchFileContent_needs_base:
  "getBaseUrl env = Inl e \<Longrightarrow> snd (fetchFileContent env p) = Inl e"
  by (simp add: fetchFileContent_def)

lemma assemble_fileCount:
  assumes "isSchedule order"
  shows "fileCount (assemble env order) =
           length SKILLS_LIST - length (filter (failsToResolve env) SKILLS_LIST)"
proof -
  let ?t = "\<lambda>s. targetName ''skills/'' (path s)"
  let ?ss = "map (\<lambda>i. SKILLS_LIST ! i) order"
  let ?ok = "{s \<in> set SKILLS_LIST. \<not> failsToResolve env s}"
  have d: "distinct (map fst (assemble env order))"
    unfolding assemble_fold by (rule distinct_fold_addSkill) simp
  have "dom (fileMap [(''skills/'', Dir)]) = {}"
    by (auto simp add: fileMap_def dom_def split: if_splits)
  then have "dom (fileMap (assemble env order)) = ?t ` ?ok"
    unfolding assemble_fold dom_fileMap_fold schedule_set[OF assms] by simp
  then have "fileCount (assemble env order) = card (?t ` ?ok)"
    using fileCount_card[OF d] by simp
  also have "\<dots> = card ?ok"
    by (rule card_image) (rule inj_on_subset[OF catalog_inj], blast)
  also have "\<dots> = length (filter (\<lambda>s. \<not> failsToResolve env s) SKILLS_LIST)"
    using distinct_card[of "filter (\<lambda>s. \<not> failsToResolve env s) SKILLS_LIST"] catalog_distinct
    by simp
  also have "\<dots> = length SKILLS_LIST - length (filter (failsToResolve env) SKILLS_LIST)"
    using sum_length_filter_compl[of "failsToResolve env" SKILLS_LIST] by simp
  finally show ?thesis .
qed

lemma bulkTry_ok:
  assumes "getBaseUrl env = Inr b" and "JSZip env" and "generateAsync env (assemble env order)"
  shows "bulkTry env order = Inr (assemble env order)"
  using assms by (simp add: bulkTry_def)

lemma downloadAllSkills_ok:
  assumes "bulkTry env order = Inr archive"
  shows "fst (downloadAllSkills env order u) = None \<and>
         alerts (snd (downloadAllSkills env order u)) = alerts u \<and>
         saved (snd (downloadAllSkills env order u)) =
           saved u @ [(''awesome-econ-ai-skills.zip'', ZipBlob archive)]"
  using assms by (simp add: downloadAllSkills_def Let_def)

lemma downloadAllSkills_failed:
  assumes "bulkTry env order = Inl e"
  shows "fst (downloadAllSkills env order u) = Some e \<and>
         alerts (snd (downloadAllSkills env order u)) =
           alerts u @ [''Failed to download skills. Please try again.''] \<and>
         saved (snd (downloadAllSkills env order u)) = saved u"
  using assms by (simp add: downloadAllSkills_def Let_def)

lemma addSkill_fail: "failsToResolve env s \<Longrightarrow> addSkill env root s fs = fs"
  by (cases "snd (fetchFileContent env (path s))") (simp_all add: failsToResolve_def addSkill_def)

lemma fold_addSkill_all_fail:
  "\<forall>s\<in>set ss. failsToResolve env s \<Longrightarrow> fold (addSkill env root) ss fs = fs"
  by (induction ss arbitrary: fs) (simp_all add: addSkill_fail)

lemma assemble_all_fail:
  assumes "isSchedule order" and "list_all (failsToResolve env) SKILLS_LIST"
  shows "assemble env order = [(''skills/'', Dir)]"
proof -
  have "\<forall>s\<in>set (map (\<lambda>i. SKILLS_LIST ! i) order). failsToResolve env s"
    using assms by (simp only: schedule_set list_all_iff)
  then show ?thesis unfolding assemble_fold by (rule fold_addSkill_all_fail)
qed

lemma bulkTry_cases:
  "bulkTry env order =
     (if isl (getBaseUrl env) then Inl (projl (getBaseUrl env))
      else if \<not> JSZip env then Inl (Error ''JSZip library not loaded'')
      else if \<not> generateAsync env (assemble env order) then Inl GenerateRejected
      else Inr (assemble env order))"
  by (cases "getBaseUrl env") (simp_all add: bulkTry_def Let_def)

lemma assemble_dom:
  assumes "isSchedule order"
  shows "dom (fileMap (assemble env order)) =
           (\<lambda>s. targetName ''skills/'' (path s)) ` {s \<in> set SKILLS_LIST. \<not> failsToResolve env s}"
proof -
  have "dom (fileMap [(''skills/'', Dir)]) = {}"
    by (auto simp add: fileMap_def dom_def split: if_splits)
  then show ?thesis
    unfolding assemble_fold dom_fileMap_fold schedule_set[OF assms] by simp
qed

lemma assemble_failed_absent:
  assumes "isSchedule order" and "s \<in> set SKILLS_LIST" and "failsToResolve env s"
  shows "fileMap (assemble env order) (targetName ''skills/'' (path s)) = None"
proof (rule ccontr)
  assume "fileMap (assemble env order) (targetName ''skills/'' (path s)) \<noteq> None"
  then have "targetName ''skills/'' (path s) \<in> dom (fileMap (assemble env order))"
    by (simp add: dom_def)
  then obtain s' where s': "s' \<in> set SKILLS_LIST" "\<not> failsToResolve env s'"
      "targetName ''skills/'' (path s') = targetName ''skills/'' (path s)"
    unfolding assemble_dom[OF assms(1)] by auto
  then have "s' = s" using catalog_inj assms(2) by (auto simp add: inj_on_def)
  then show False using s'(2) assms(3) by simp
qed


section \<open>Facts about the example pages\<close>

lemma catalog_length: "length SKILLS_LIST = 12"
  by (simp add: SKILLS_LIST_def)

lemma exampleOrder_schedule: "isSchedule exampleOrder"
  by (simp add: isSchedule_def exampleOrder_def catalog_length) code_simp

lemma examplePage_base: "getBaseUrl examplePage = Inr ''/awesome-econ-ai-stuff''"
  by (simp add: getBaseUrl_def examplePage_def)

lemma offlinePage_base: "getBaseUrl offlinePage = Inr ''/awesome-econ-ai-stuff''"
  by (simp add: getBaseUrl_def offlinePage_def examplePage_def)

lemma offlinePage_fails: "snd (fetchFileContent offlinePage p) = Inl FetchRejected"
  by (simp add: fetchFileContent_def offlinePage_base directAttempt_def)
     (simp add: offlinePage_def)

lemma brokenBasePage_base: "getBaseUrl brokenBasePage = Inl InvalidURL"
  by (simp add: getBaseUrl_def brokenBasePage_def examplePage_def)


lemma examplePage_failures: "length (filter (failsToResolve examplePage) SKILLS_LIST) = 3"
  by (simp add: failsToResolve_def examplePage_def SKILLS_LIST_def fetchFileContent_def getBaseUrl_def
       directAttempt_def githubUrl_def GITHUB_REPO_def GITHUB_BRANCH_def startsWith_def)

lemma not_html: "\<not> looksLikeHtml ''# Skill''"
  unfolding looksLikeHtml_iff by (simp add: startsWith_def trimStart_def isWhiteSpace_def)

lemma examplePage_latex_tables:
  "snd (fetchFileContent examplePage ''_skills/writing/latex-tables/SKILL.md'') = Inr ''# Skill''"
  by (simp add: examplePage_def fetchFileContent_def getBaseUrl_def
       directAttempt_def startsWith_def not_html)

lemma examplePage_r_econometrics:
  "snd (fetchFileContent examplePage ''_skills/analysis/r-econometrics/SKILL.md'') =
     Inl (Error ''Failed to fetch _skills/analysis/r-econometrics/SKILL.md from GitHub: Not Found'')"
  by (simp add: examplePage_def fetchFileContent_def getBaseUrl_def directAttempt_def
       githubUrl_def GITHUB_REPO_def GITHUB_BRANCH_def startsWith_def)


section \<open>The claims\<close>

subsection \<open>C1: an HTML body from the site is replaced by the raw file\<close>

text \<open>
  Claim C1. For every relative path: when the request to the site (base prefix, slash,
  path) settles with a successful response whose text, leading white space removed,
  begins with \<^verbatim>\<open><!DOCTYPE\<close> or \<^verbatim>\<open><html\<close>, \<open>fetchFileContent\<close> discards that text and
  requests the raw GitHub URL next; when that request succeeds, the result is the text of
  the second response.
\<close>

theorem fetchFileContent_html_fallback:
  assumes "getBaseUrl env = Inr baseUrl"
    and "fetch env (baseUrl @ ''/'' @ relPath) = Some (Response True st (Some content))"
    and "startsWith (trimStart content) ''<!DOCTYPE'' \<or> startsWith (trimStart content) ''<html''"
  shows "fst (fetchFileContent env relPath) = [baseUrl @ ''/'' @ relPath, githubUrl relPath] \<and>
         (\<forall>st' text. fetch env (githubUrl relPath) = Some (Response True st' (Some text)) \<longrightarrow>
            snd (fetchFileContent env relPath) = Inr text)"
proof -
  have "looksLikeHtml content" using assms(3) by (simp add: looksLikeHtml_iff)
  then have d: "directAttempt (fetch env (baseUrl @ ''/'' @ relPath)) = None"
    using assms(2) directAttempt_html by simp
  show ?thesis using assms(1) d by (simp add: fetchFileContent_def)
qed

theorem fetchFileContent_html_fallback_witness:
  "fst (fetchFileContent renderedPage ''_skills/writing/latex-tables/SKILL.md'') =
     [''/awesome-econ-ai-stuff/_skills/writing/latex-tables/SKILL.md'',
      ''https://raw.githubusercontent.com/meleantonio/awesome-econ-ai-stuff/main/_skills/writing/latex-tables/SKILL.md''] \<and>
   snd (fetchFileContent renderedPage ''_skills/writing/latex-tables/SKILL.md'') = Inr ''# Skill''"
proof -
  let ?p = "''_skills/writing/latex-tables/SKILL.md''"
  let ?html = "CHR 0x0A # '' <!DOCTYPE html><html></html>''"
  have b: "getBaseUrl renderedPage = Inr ''/awesome-econ-ai-stuff''"
    by (simp add: getBaseUrl_def renderedPage_def examplePage_def)
  have f1: "fetch renderedPage (''/awesome-econ-ai-stuff'' @ ''/'' @ ?p) = Some (Response True ''OK'' (Some ?html))"
    by (simp add: renderedPage_def examplePage_def startsWith_def)
  have h: "startsWith (trimStart ?html) ''<!DOCTYPE'' \<or> startsWith (trimStart ?html) ''<html''"
    by (simp add: startsWith_def trimStart_def isWhiteSpace_def)
  have f2: "fetch renderedPage (githubUrl ?p) = Some (Response True ''OK'' (Some ''# Skill''))"
    by (simp add: renderedPage_def examplePage_def startsWith_def githubUrl_def GITHUB_REPO_def)
  have g: "githubUrl ?p = ''https://raw.githubusercontent.com/meleantonio/awesome-econ-ai-stuff/main/_skills/writing/latex-tables/SKILL.md''"
    by (simp add: githubUrl_def GITHUB_REPO_def GITHUB_BRANCH_def)
  show ?thesis
    using fetchFileContent_html_fallback[OF b f1 h] f2 g by simp
qed


subsection \<open>C2: entries that fail are left out, the others are archived\<close>

text \<open>
  Claim C2. Let \<open>M\<close> of the \<open>N\<close> entries of the catalog fail to resolve,
  \<open>0 < M < N\<close>. Whatever the order in which the resolutions complete, once all of them
  have settled the archive holds exactly \<open>N - M\<close> files and none for an entry that
  failed, and (the library being loaded and the serialisation resolving)
  \<open>downloadAllSkills\<close> saves that archive, catches no error and raises no alert.
\<close>

theorem partial_failure_tolerated:
  assumes "isSchedule order"
    and "JSZip env" and "generateAsync env (assemble env order)"
    and "M = length (filter (failsToResolve env) SKILLS_LIST)"
    and "0 < M" and "M < length SKILLS_LIST"
  shows "fileCount (assemble env order) = length SKILLS_LIST - M \<and>
         (\<forall>s\<in>set SKILLS_LIST. failsToResolve env s \<longrightarrow>
            fileMap (assemble env order) (targetName ''skills/'' (path s)) = None) \<and>
         fst (downloadAllSkills env order u) = None \<and>
         alerts (snd (downloadAllSkills env order u)) = alerts u \<and>
         saved (snd (downloadAllSkills env order u)) =
           saved u @ [(''awesome-econ-ai-skills.zip'', ZipBlob (assemble env order))]"
proof -
  have "\<exists>s\<in>set SKILLS_LIST. \<not> failsToResolve env s"
  proof (rule ccontr)
    assume "\<not> (\<exists>s\<in>set SKILLS_LIST. \<not> failsToResolve env s)"
    then have "filter (failsToResolve env) SKILLS_LIST = SKILLS_LIST" by (simp add: filter_id_conv)
    then show False using assms(4,6) by simp
  qed
  then obtain s where s: "\<not> failsToResolve env s" by blast
  have "\<exists>b. getBaseUrl env = Inr b"
  proof (cases "getBaseUrl env")
    case (Inl e)
    then have "failsToResolve env s"
      by (simp add: failsToResolve_def fetchFileContent_needs_base)
    then show ?thesis using s by simp
  next
    case (Inr b)
    then show ?thesis by simp
  qed
  then obtain b where "getBaseUrl env = Inr b" ..
  then have "bulkTry env order = Inr (assemble env order)"
    using assms(2,3) by (rule bulkTry_ok)
  then show ?thesis
    using downloadAllSkills_ok[of env order "assemble env order" u]
      assemble_fileCount[OF assms(1), of env] assms(4)
      assemble_failed_absent[OF assms(1), of _ env] by simp
qed

theorem partial_failure_tolerated_witness:
  "fileCount (assemble examplePage exampleOrder) = 9 \<and>
   fileMap (assemble examplePage exampleOrder) ''skills/analysis/r-econometrics/SKILL.md'' = None \<and>
   fst (downloadAllSkills examplePage exampleOrder exampleUi) = None \<and>
   alerts (snd (downloadAllSkills examplePage exampleOrder exampleUi)) = [] \<and>
   saved (snd (downloadAllSkills examplePage exampleOrder exampleUi)) =
     [(''awesome-econ-ai-skills.zip'', ZipBlob (assemble examplePage exampleOrder))]"
proof -
  have z: "JSZip examplePage" by (simp add: examplePage_def)
  have g: "generateAsync examplePage (assemble examplePage exampleOrder)"
    by (simp add: examplePage_def)
  have m: "3 = length (filter (failsToResolve examplePage) SKILLS_LIST)"
    by (simp add: examplePage_failures)
  have lo: "0 < (3::nat)" by simp
  have hi: "3 < length SKILLS_LIST" by (simp add: catalog_length)
  let ?s = "\<lparr>path = ''_skills/analysis/r-econometrics/SKILL.md'', name = ''r-econometrics''\<rparr>"
  have mem: "?s \<in> set SKILLS_LIST" by (simp add: SKILLS_LIST_def)
  have fl: "failsToResolve examplePage ?s"
    by (simp add: failsToResolve_def examplePage_r_econometrics)
  have tn: "targetName ''skills/'' (path ?s) = ''skills/analysis/r-econometrics/SKILL.md''"
    by (simp add: targetName_def subRoot_def folder_def at_def forceTrailingSlash_def)
  note t = partial_failure_tolerated[OF exampleOrder_schedule z g m lo hi, of exampleUi]
  have "fileMap (assemble examplePage exampleOrder) (targetName ''skills/'' (path ?s)) = None"
    using t[THEN conjunct2, THEN conjunct1, THEN bspec, OF mem, THEN mp, OF fl] .
  then show ?thesis
    using t tn by (simp add: catalog_length exampleUi_def)
qed


subsection \<open>C3: where a resolved entry lies in the archive\<close>

text \<open>
  Claim C3. For every entry of the catalog that resolves, with path \<open>p\<close>, the archive
  holds its text under \<^verbatim>\<open>skills/<category>/<name>/SKILL.md\<close>, where the category and
  the name are the second and the third segment of \<open>p\<close> split at the slashes; the entry
  \<^verbatim>\<open>_skills/writing/latex-tables/SKILL.md\<close> lies at \<^verbatim>\<open>skills/writing/latex-tables/SKILL.md\<close>.
  The archive that \<open>downloadAllSkills\<close> saves is this archive.
\<close>

theorem archive_layout:
  assumes "isSchedule order" and "s \<in> set SKILLS_LIST"
    and "snd (fetchFileContent env (path s)) = Inr content"
  shows "(\<exists>category skillName.
            at (split CHR ''/'' (path s)) 1 = Some category \<and>
            at (split CHR ''/'' (path s)) 2 = Some skillName \<and>
            map_of (assemble env order) (''skills/'' @ category @ ''/'' @ skillName @ ''/SKILL.md'')
              = Some (File content)) \<and>
         (path s = ''_skills/writing/latex-tables/SKILL.md'' \<longrightarrow>
            map_of (assemble env order) ''skills/writing/latex-tables/SKILL.md'' = Some (File content)) \<and>
         (\<forall>archive. bulkTry env order = Inr archive \<longrightarrow>
            archive = assemble env order \<and>
            saved (snd (downloadAllSkills env order u)) =
              saved u @ [(''awesome-econ-ai-skills.zip'', ZipBlob archive)])"
proof -
  let ?t = "\<lambda>x. targetName ''skills/'' (path x)"
  have s': "s \<in> set (map (\<lambda>i. SKILLS_LIST ! i) order)"
    using assms(1,2) schedule_set by simp
  have inj: "inj_on ?t (set (map (\<lambda>i. SKILLS_LIST ! i) order))"
    using catalog_inj schedule_set[OF assms(1)] by simp
  have "fileMap (assemble env order) (?t s) = Some content"
    unfolding assemble_fold by (rule fileMap_fold_written[OF s' assms(3) inj])
  then have m: "map_of (assemble env order) (?t s) = Some (File content)"
    by (auto simp add: fileMap_def split: option.splits zentry.splits)
  obtain category skillName where
    seg: "at (split CHR ''/'' (path s)) 1 = Some category"
         "at (split CHR ''/'' (path s)) 2 = Some skillName"
         "?t s = ''skills/'' @ category @ ''/'' @ skillName @ ''/SKILL.md''"
    using catalog_segments assms(2) by blast
  have 1: "\<exists>category skillName.
            at (split CHR ''/'' (path s)) 1 = Some category \<and>
            at (split CHR ''/'' (path s)) 2 = Some skillName \<and>
            map_of (assemble env order) (''skills/'' @ category @ ''/'' @ skillName @ ''/SKILL.md'')
              = Some (File content)"
    using seg m by auto
  have 2: "path s = ''_skills/writing/latex-tables/SKILL.md'' \<longrightarrow>
            map_of (assemble env order) ''skills/writing/latex-tables/SKILL.md'' = Some (File content)"
  proof
    assume p: "path s = ''_skills/writing/latex-tables/SKILL.md''"
    have "targetName ''skills/'' ''_skills/writing/latex-tables/SKILL.md''
            = ''skills/writing/latex-tables/SKILL.md''"
      by (simp add: targetName_def subRoot_def folder_def at_def forceTrailingSlash_def)
    then show "map_of (assemble env order) ''skills/writing/latex-tables/SKILL.md'' = Some (File content)"
      using m p by simp
  qed
  have 3: "\<forall>archive. bulkTry env order = Inr archive \<longrightarrow>
            archive = assemble env order \<and>
            saved (snd (downloadAllSkills env order u)) =
              saved u @ [(''awesome-econ-ai-skills.zip'', ZipBlob archive)]"
  proof (intro allI impI)
    fix archive assume b: "bulkTry env order = Inr archive"
    then have "archive = assemble env order"
      by (auto simp add: bulkTry_def Let_def split: sum.splits if_splits)
    then show "archive = assemble env order \<and>
            saved (snd (downloadAllSkills env order u)) =
              saved u @ [(''awesome-econ-ai-skills.zip'', ZipBlob archive)]"
      using downloadAllSkills_ok[OF b] by simp
  qed
  show ?thesis using 1 2 3 by blast
qed

theorem archive_layout_witness:
  "map_of (assemble examplePage exampleOrder) ''skills/writing/latex-tables/SKILL.md''
     = Some (File ''# Skill'')"
proof -
  let ?s = "\<lparr>path = ''_skills/writing/latex-tables/SKILL.md'', name = ''latex-tables''\<rparr>"
  have mem: "?s \<in> set SKILLS_LIST" by (simp add: SKILLS_LIST_def)
  have res: "snd (fetchFileContent examplePage (path ?s)) = Inr ''# Skill''"
    by (simp add: examplePage_latex_tables)
  have p: "path ?s = ''_skills/writing/latex-tables/SKILL.md''" by simp
  show ?thesis
    using archive_layout[OF exampleOrder_schedule mem res, THEN conjunct2, THEN conjunct1,
        THEN mp, OF p] .
qed


subsection \<open>C4: the path of the single file\<close>

text \<open>
  Claim C4. For every page path and base prefix, the derivation in
  \<open>downloadSkillFile\<close> takes the page path without the base prefix when the path starts
  with it (\<open>r\<close>), removes one trailing slash (\<open>q\<close>), appends \<^verbatim>\<open>/SKILL.md\<close> and
  replaces a leading \<^verbatim>\<open>/skills/\<close> by \<^verbatim>\<open>_skills/\<close>. For the page path
  \<^verbatim>\<open><base>/skills/analysis/r-econometrics/\<close> the result is
  \<^verbatim>\<open>_skills/analysis/r-econometrics/SKILL.md\<close>.
\<close>

theorem deriveSkillPath_steps:
  "(\<forall>r q t. (if \<exists>r'. currentPath = baseUrl @ r' then currentPath = baseUrl @ r else r = currentPath)
       \<and> (if \<exists>q'. r = q' @ ''/'' then r = q @ ''/'' else q = r)
       \<longrightarrow> (q @ ''/SKILL.md'' = ''/skills/'' @ t \<longrightarrow> deriveSkillPath currentPath baseUrl = ''_skills/'' @ t)
         \<and> (\<not> (\<exists>t'. q @ ''/SKILL.md'' = ''/skills/'' @ t') \<longrightarrow>
              deriveSkillPath currentPath baseUrl = q @ ''/SKILL.md'')) \<and>
   deriveSkillPath (baseUrl @ ''/skills/analysis/r-econometrics/'') baseUrl =
     ''_skills/analysis/r-econometrics/SKILL.md'' \<and>
   (getBaseUrl env = Inr baseUrl \<and> pathname env = baseUrl @ ''/skills/analysis/r-econometrics/''
      \<longrightarrow> fst (skillPathStep env) = Inr ''_skills/analysis/r-econometrics/SKILL.md'')"
proof (intro conjI allI impI)
  fix r q t
  assume h: "(if \<exists>r'. currentPath = baseUrl @ r' then currentPath = baseUrl @ r else r = currentPath)
       \<and> (if \<exists>q'. r = q' @ ''/'' then r = q @ ''/'' else q = r)"
  have r: "(if baseUrl \<noteq> [] \<and> startsWith currentPath baseUrl
            then drop (length baseUrl) currentPath else currentPath) = r"
  proof (cases "\<exists>r'. currentPath = baseUrl @ r'")
    case True
    then have "currentPath = baseUrl @ r" using h by simp
    then show ?thesis by (auto simp: startsWith_iff)
  next
    case False
    then have "r = currentPath" using h by simp
    then show ?thesis using False by (auto simp: startsWith_iff)
  qed
  have q: "removeTrailingSlash r = q"
  proof (cases "\<exists>q'. r = q' @ ''/''")
    case True
    then have "r = q @ ''/''" using h by simp
    then show ?thesis by (simp add: removeTrailingSlash_slash)
  next
    case False
    then have "r = [] \<or> last r \<noteq> CHR ''/''"
      by (metis append_butlast_last_id)
    moreover have "q = r" using False h by simp
    ultimately show ?thesis by (simp add: removeTrailingSlash_other)
  qed
  have d: "deriveSkillPath currentPath baseUrl = rewriteSkillsSegment (q @ ''/SKILL.md'')"
    unfolding deriveSkillPath_def Let_def r q ..
  { assume "q @ ''/SKILL.md'' = ''/skills/'' @ t"
    then show "deriveSkillPath currentPath baseUrl = ''_skills/'' @ t"
      using d rewriteSkillsSegment_skills by simp }
  { assume "\<not> (\<exists>t'. q @ ''/SKILL.md'' = ''/skills/'' @ t')"
    then have "\<not> startsWith (q @ ''/SKILL.md'') ''/skills/''" by (simp add: startsWith_iff)
    then show "deriveSkillPath currentPath baseUrl = q @ ''/SKILL.md''"
      using d by (simp add: rewriteSkillsSegment_def) }
next
  show ex: "deriveSkillPath (baseUrl @ ''/skills/analysis/r-econometrics/'') baseUrl =
     ''_skills/analysis/r-econometrics/SKILL.md''" for baseUrl
    by (simp add: deriveSkillPath_def startsWith_def removeTrailingSlash_def rewriteSkillsSegment_def)
  assume "getBaseUrl env = Inr baseUrl \<and> pathname env = baseUrl @ ''/skills/analysis/r-econometrics/''"
  then show "fst (skillPathStep env) = Inr ''_skills/analysis/r-econometrics/SKILL.md''"
    using ex[of baseUrl] by (simp add: skillPathStep_def)
qed

theorem deriveSkillPath_steps_witness:
  "deriveSkillPath ''/awesome-econ-ai-stuff/skills/writing/latex-tables/'' ''/awesome-econ-ai-stuff''
     = ''_skills/writing/latex-tables/SKILL.md'' \<and>
   fst (skillPathStep examplePage) = Inr ''_skills/analysis/r-econometrics/SKILL.md''"
proof
  let ?cp = "''/awesome-econ-ai-stuff/skills/writing/latex-tables/''"
  let ?b = "''/awesome-econ-ai-stuff''"
  let ?r = "''/skills/writing/latex-tables/''"
  let ?q = "''/skills/writing/latex-tables''"
  let ?t = "''writing/latex-tables/SKILL.md''"
  have cp: "?cp = ?b @ ?r" by simp
  have e1: "\<exists>r'. ?cp = ?b @ r'" by (rule exI, rule cp)
  have r: "?r = ?q @ ''/''" by simp
  have e2: "\<exists>q'. ?r = q' @ ''/''" by (rule exI, rule r)
  have h: "(if \<exists>r'. ?cp = ?b @ r' then ?cp = ?b @ ?r else ?r = ?cp) \<and>
           (if \<exists>q'. ?r = q' @ ''/'' then ?r = ?q @ ''/'' else ?q = ?r)"
    unfolding if_P[OF e1] if_P[OF e2] using cp r by (intro conjI)
  have t: "?q @ ''/SKILL.md'' = ''/skills/'' @ ?t" by simp
  have "deriveSkillPath ?cp ?b = ''_skills/'' @ ?t"
    by (rule deriveSkillPath_steps[THEN conjunct1, THEN spec, THEN spec, THEN spec, THEN mp,
          THEN conjunct1, THEN mp, OF h t])
  then show "deriveSkillPath ?cp ?b = ''_skills/writing/latex-tables/SKILL.md''" by simp
next
  have "getBaseUrl examplePage = Inr ''/awesome-econ-ai-stuff'' \<and>
        pathname examplePage = ''/awesome-econ-ai-stuff'' @ ''/skills/analysis/r-econometrics/''"
    by (simp add: examplePage_base) (simp add: examplePage_def)
  then show "fst (skillPathStep examplePage) = Inr ''_skills/analysis/r-econometrics/SKILL.md''"
    by (rule deriveSkillPath_steps[THEN conjunct2, THEN conjunct2, THEN mp])
qed


subsection \<open>C5: the button is idle again\<close>

text \<open>
  Claim C5. After \<open>downloadAllSkills\<close> and after \<open>downloadSkillFile\<close>, whatever the
  outcome, the button that started the operation (when the page has it) is enabled and
  carries its idle label, \<^verbatim>\<open>Download All Skills\<close> or \<^verbatim>\<open>Download SKILL.md\<close>.
\<close>

theorem button_restored:
  "allBtn (snd (downloadAllSkills env order u)) =
     map_option (\<lambda>b. b\<lparr>disabled := False, textContent := ''Download All Skills''\<rparr>) (allBtn u) \<and>
   skillBtn (snd (downloadSkillFile env u)) =
     map_option (\<lambda>b. b\<lparr>disabled := False, textContent := ''Download SKILL.md''\<rparr>) (skillBtn u)"
proof
  show "allBtn (snd (downloadAllSkills env order u)) =
     map_option (\<lambda>b. b\<lparr>disabled := False, textContent := ''Download All Skills''\<rparr>) (allBtn u)"
    by (cases "allBtn u"; cases "bulkTry env order")
       (simp_all add: downloadAllSkills_def Let_def busy_def idle_def)
  show "skillBtn (snd (downloadSkillFile env u)) =
     map_option (\<lambda>b. b\<lparr>disabled := False, textContent := ''Download SKILL.md''\<rparr>) (skillBtn u)"
    by (cases "skillBtn u"; cases "singleTry env")
       (auto simp add: downloadSkillFile_def Let_def busy_def idle_def split: prod.splits)
qed

theorem button_restored_witness:
  "allBtn (snd (downloadAllSkills brokenBasePage exampleOrder exampleUi)) =
     Some \<lparr>disabled = False, textContent = ''Download All Skills''\<rparr> \<and>
   skillBtn (snd (downloadSkillFile offlinePage exampleUi)) =
     Some \<lparr>disabled = False, textContent = ''Download SKILL.md''\<rparr>"
  using button_restored[of brokenBasePage exampleOrder exampleUi]
    button_restored[of offlinePage exampleOrder exampleUi]
  by (simp add: exampleUi_def)


subsection \<open>C6: the single file cannot be fetched\<close>

text \<open>
  Claim C6. When, for the derived path, the request to the site fails (it is rejected,
  answers without success, its text cannot be read or is HTML) and the request to the
  raw GitHub URL fails (it is rejected, answers without success or its text cannot be
  read), \<open>downloadSkillFile\<close> raises its alert and saves no file.
\<close>

theorem downloadSkillFile_total_failure:
  assumes "getBaseUrl env = Inr baseUrl"
    and "p = deriveSkillPath (pathname env) baseUrl"
    and "\<forall>st content. fetch env (baseUrl @ ''/'' @ p) = Some (Response True st (Some content))
            \<longrightarrow> looksLikeHtml content"
    and "\<forall>st text. fetch env (githubUrl p) \<noteq> Some (Response True st (Some text))"
  shows "fst (downloadSkillFile env u) \<noteq> None \<and>
         alerts (snd (downloadSkillFile env u)) =
           alerts u @ [''Failed to download SKILL.md file. Please try again.''] \<and>
         saved (snd (downloadSkillFile env u)) = saved u"
proof -
  have d: "directAttempt (fetch env (baseUrl @ ''/'' @ p)) = None"
  proof (cases "fetch env (baseUrl @ ''/'' @ p)")
    case None
    then show ?thesis by (simp add: directAttempt_def)
  next
    case (Some r)
    then show ?thesis using assms(3)
      by (cases r) (auto simp add: directAttempt_def split: option.splits)
  qed
  have "\<exists>e. snd (fetchFileContent env p) = Inl e"
  proof (cases "fetch env (githubUrl p)")
    case None
    then show ?thesis using assms(1) d by (simp add: fetchFileContent_def)
  next
    case (Some r)
    then show ?thesis using assms(1,4) d
      by (cases r) (auto simp add: fetchFileContent_def split: option.splits)
  qed
  then obtain e where e: "snd (fetchFileContent env p) = Inl e" ..
  have "fst (skillPathStep env) = Inr p" using assms(1,2) by (simp add: skillPathStep_def)
  then have "singleTry env = Inl e" using e singleTry_fails by simp
  then show ?thesis by (simp add: downloadSkillFile_def Let_def)
qed

theorem downloadSkillFile_total_failure_witness:
  "fst (downloadSkillFile offlinePage exampleUi) \<noteq> None \<and>
   alerts (snd (downloadSkillFile offlinePage exampleUi)) =
     [''Failed to download SKILL.md file. Please try again.''] \<and>
   saved (snd (downloadSkillFile offlinePage exampleUi)) = []"
proof -
  let ?p = "deriveSkillPath (pathname offlinePage) ''/awesome-econ-ai-stuff''"
  have p: "?p = ?p" ..
  have f1: "\<forall>st content. fetch offlinePage (''/awesome-econ-ai-stuff'' @ ''/'' @ ?p) =
              Some (Response True st (Some content)) \<longrightarrow> looksLikeHtml content"
    by (simp add: offlinePage_def)
  have f2: "\<forall>st text. fetch offlinePage (githubUrl ?p) \<noteq> Some (Response True st (Some text))"
    by (simp add: offlinePage_def)
  show ?thesis
    using downloadSkillFile_total_failure[OF offlinePage_base p f1 f2, of exampleUi]
    by (simp add: exampleUi_def)
qed


subsection \<open>C7: the base prefix\<close>

text \<open>
  Claim C7, as stated: \<open>getBaseUrl\<close> returns the injected \<^verbatim>\<open>window.siteBaseurl\<close> when
  it is defined; otherwise, when a base tag with an \<^verbatim>\<open>href\<close> is present, the pathname of
  that \<^verbatim>\<open>href\<close> with a trailing slash removed; otherwise \<^verbatim>\<open>/awesome-econ-ai-stuff\<close>
  when the page path contains it; otherwise the empty string. On a page without an
  injected base path whose base tag has an \<^verbatim>\<open>href\<close> that is no URL this is not so:
  \<^verbatim>\<open>new URL(baseTag.href)\<close> throws and \<open>getBaseUrl\<close> returns none of the four values.
\<close>

theorem getBaseUrl_throws_counterexample:
  "siteBaseurl brokenBasePage = None \<and>
   baseHref brokenBasePage = Some ''http://['' \<and>
   urlPathname brokenBasePage ''http://['' = None \<and>
   getBaseUrl brokenBasePage = Inl InvalidURL"
  by (simp add: getBaseUrl_def brokenBasePage_def examplePage_def)

text \<open>
  Claim C7, amended. \<open>getBaseUrl\<close> behaves as follows, in this order of priority.
  (1) When \<^verbatim>\<open>window.siteBaseurl\<close> is defined, it returns it. (2) Otherwise, when the
  document has a base element whose \<^verbatim>\<open>href\<close> property is not empty (the property, not
  the attribute: a base element without the attribute has the URL of the document
  there): when that string is a URL, with pathname \<open>p\<close>, it returns \<open>p\<close> with one
  trailing slash removed; when it is no URL, \<^verbatim>\<open>new URL\<close> throws and nothing is
  returned. (3) Otherwise it returns \<^verbatim>\<open>/awesome-econ-ai-stuff\<close> when the page path
  contains that string, and (4) the empty string when it does not.
\<close>

theorem getBaseUrl_priority:
  "(siteBaseurl env = Some b \<longrightarrow> getBaseUrl env = Inr b) \<and>
   (siteBaseurl env = None \<and> baseHref env = Some href \<and> href \<noteq> [] \<and>
      urlPathname env href = Some p \<longrightarrow>
        getBaseUrl env = Inr (removeTrailingSlash p) \<and>
        (\<forall>q. p = q @ ''/'' \<longrightarrow> getBaseUrl env = Inr q) \<and>
        (p = [] \<or> last p \<noteq> CHR ''/'' \<longrightarrow> getBaseUrl env = Inr p)) \<and>
   (siteBaseurl env = None \<and> baseHref env = Some href \<and> href \<noteq> [] \<and>
      urlPathname env href = None \<longrightarrow>
        getBaseUrl env = Inl InvalidURL) \<and>
   (siteBaseurl env = None \<and> (baseHref env = None \<or> baseHref env = Some []) \<and>
      (\<exists>u v. pathname env = u @ ''/awesome-econ-ai-stuff'' @ v) \<longrightarrow>
        getBaseUrl env = Inr ''/awesome-econ-ai-stuff'') \<and>
   (siteBaseurl env = None \<and> (baseHref env = None \<or> baseHref env = Some []) \<and>
      \<not> (\<exists>u v. pathname env = u @ ''/awesome-econ-ai-stuff'' @ v) \<longrightarrow>
        getBaseUrl env = Inr [])"
proof (intro conjI impI allI)
  assume "siteBaseurl env = Some b"
  then show "getBaseUrl env = Inr b" by (simp add: getBaseUrl_def)
next
  assume h: "siteBaseurl env = None \<and> baseHref env = Some href \<and> href \<noteq> [] \<and>
      urlPathname env href = Some p"
  then show g: "getBaseUrl env = Inr (removeTrailingSlash p)" by (simp add: getBaseUrl_def)
  { fix q assume "p = q @ ''/''"
    then show "getBaseUrl env = Inr q" using g removeTrailingSlash_slash by simp }
  { assume "p = [] \<or> last p \<noteq> CHR ''/''"
    then show "getBaseUrl env = Inr p" using g removeTrailingSlash_other by simp }
next
  assume "siteBaseurl env = None \<and> baseHref env = Some href \<and> href \<noteq> [] \<and>
      urlPathname env href = None"
  then show "getBaseUrl env = Inl InvalidURL" by (simp add: getBaseUrl_def)
next
  assume "siteBaseurl env = None \<and> (baseHref env = None \<or> baseHref env = Some []) \<and>
      (\<exists>u v. pathname env = u @ ''/awesome-econ-ai-stuff'' @ v)"
  then show "getBaseUrl env = Inr ''/awesome-econ-ai-stuff''"
    unfolding includes_str_iff[symmetric] by (auto simp add: getBaseUrl_def)
next
  assume "siteBaseurl env = None \<and> (baseHref env = None \<or> baseHref env = Some []) \<and>
      \<not> (\<exists>u v. pathname env = u @ ''/awesome-econ-ai-stuff'' @ v)"
  then show "getBaseUrl env = Inr []"
    unfolding includes_str_iff[symmetric] by (auto simp add: getBaseUrl_def)
qed

theorem getBaseUrl_priority_witness:
  "getBaseUrl examplePage = Inr ''/awesome-econ-ai-stuff'' \<and>
   getBaseUrl baseTagPage = Inr ''/docs'' \<and>
   getBaseUrl bareBasePage = Inr ''/awesome-econ-ai-stuff/skills/analysis/r-econometrics'' \<and>
   getBaseUrl brokenBasePage = Inl InvalidURL \<and>
   getBaseUrl plainPage = Inr ''/awesome-econ-ai-stuff'' \<and>
   getBaseUrl localPage = Inr []"
proof (intro conjI)
  have 1: "siteBaseurl examplePage = Some ''/awesome-econ-ai-stuff''"
    by (simp add: examplePage_def)
  show "getBaseUrl examplePage = Inr ''/awesome-econ-ai-stuff''"
    by (rule getBaseUrl_priority[THEN conjunct1, THEN mp]) (rule 1)
next
  have 2: "siteBaseurl baseTagPage = None \<and> baseHref baseTagPage = Some ''https://example.org/docs/'' \<and>
           ''https://example.org/docs/'' \<noteq> [] \<and>
           urlPathname baseTagPage ''https://example.org/docs/'' = Some ''/docs/''"
    by (simp add: baseTagPage_def examplePage_def)
  have d: "''/docs/'' = ''/docs'' @ ''/''" by simp
  show "getBaseUrl baseTagPage = Inr ''/docs''"
    by (rule getBaseUrl_priority[THEN conjunct2, THEN conjunct1, THEN mp, THEN conjunct2,
          THEN conjunct1, THEN spec, THEN mp, OF 2 d])
next
  let ?u = "''https://example.org/awesome-econ-ai-stuff/skills/analysis/r-econometrics/''"
  have 2: "siteBaseurl bareBasePage = None \<and> baseHref bareBasePage = Some ?u \<and> ?u \<noteq> [] \<and>
           urlPathname bareBasePage ?u = Some ''/awesome-econ-ai-stuff/skills/analysis/r-econometrics/''"
    by (simp add: bareBasePage_def examplePage_def)
  have d: "''/awesome-econ-ai-stuff/skills/analysis/r-econometrics/'' =
           ''/awesome-econ-ai-stuff/skills/analysis/r-econometrics'' @ ''/''" by simp
  show "getBaseUrl bareBasePage = Inr ''/awesome-econ-ai-stuff/skills/analysis/r-econometrics''"
    by (rule getBaseUrl_priority[THEN conjunct2, THEN conjunct1, THEN mp, THEN conjunct2,
          THEN conjunct1, THEN spec, THEN mp, OF 2 d])
next
  have 3: "siteBaseurl brokenBasePage = None \<and> baseHref brokenBasePage = Some ''http://['' \<and>
           ''http://['' \<noteq> [] \<and> urlPathname brokenBasePage ''http://['' = None"
    by (simp add: brokenBasePage_def examplePage_def)
  show "getBaseUrl brokenBasePage = Inl InvalidURL"
    by (rule getBaseUrl_priority[THEN conjunct2, THEN conjunct2, THEN conjunct1, THEN mp, OF 3])
next
  have p: "pathname plainPage = [] @ ''/awesome-econ-ai-stuff'' @ ''/skills/analysis/r-econometrics/''"
    by (simp add: plainPage_def examplePage_def)
  have e: "\<exists>u v. pathname plainPage = u @ ''/awesome-econ-ai-stuff'' @ v"
    by (rule exI, rule exI, rule p)
  have n: "siteBaseurl plainPage = None" and h: "baseHref plainPage = None"
    by (simp_all add: plainPage_def examplePage_def)
  have 4: "siteBaseurl plainPage = None \<and> (baseHref plainPage = None \<or> baseHref plainPage = Some []) \<and>
           (\<exists>u v. pathname plainPage = u @ ''/awesome-econ-ai-stuff'' @ v)"
    using n h e by (intro conjI disjI1)
  show "getBaseUrl plainPage = Inr ''/awesome-econ-ai-stuff''"
    by (rule getBaseUrl_priority[THEN conjunct2, THEN conjunct2, THEN conjunct2, THEN conjunct1,
          THEN mp, OF 4])
next
  have i: "\<not> includes_str (pathname localPage) ''/awesome-econ-ai-stuff''"
    by (simp add: localPage_def examplePage_def startsWith_def)
  have e: "\<not> (\<exists>u v. pathname localPage = u @ ''/awesome-econ-ai-stuff'' @ v)"
    using i unfolding includes_str_iff .
  have n: "siteBaseurl localPage = None" and h: "baseHref localPage = None"
    by (simp_all add: localPage_def examplePage_def)
  have 5: "siteBaseurl localPage = None \<and> (baseHref localPage = None \<or> baseHref localPage = Some []) \<and>
           \<not> (\<exists>u v. pathname localPage = u @ ''/awesome-econ-ai-stuff'' @ v)"
    using n h e by (intro conjI disjI1)
  show "getBaseUrl localPage = Inr []"
    by (rule getBaseUrl_priority[THEN conjunct2, THEN conjunct2, THEN conjunct2, THEN conjunct2,
          THEN mp, OF 5])
qed


subsection \<open>C9: nothing resolves\<close>

text \<open>
  Claim C9, as stated: when every entry of the catalog fails to resolve,
  \<open>downloadAllSkills\<close> still saves an archive and raises no alert, the alert being
  reached only when JSZip is missing or the serialisation fails. On a page whose base
  tag has an \<^verbatim>\<open>href\<close> that is no URL (and that has no injected base path) this is not so:
  \<^verbatim>\<open>getBaseUrl()\<close>, the first statement of the \<^verbatim>\<open>try\<close> block, throws; every entry fails
  to resolve, JSZip is loaded, serialisation would resolve, and yet the alert is raised
  and nothing is saved.
\<close>

theorem total_failure_alert_counterexample:
  "list_all (failsToResolve brokenBasePage) SKILLS_LIST \<and>
   JSZip brokenBasePage \<and>
   generateAsync brokenBasePage (assemble brokenBasePage exampleOrder) \<and>
   fst (downloadAllSkills brokenBasePage exampleOrder exampleUi) = Some InvalidURL \<and>
   alerts (snd (downloadAllSkills brokenBasePage exampleOrder exampleUi)) =
     [''Failed to download skills. Please try again.''] \<and>
   saved (snd (downloadAllSkills brokenBasePage exampleOrder exampleUi)) = []"
proof -
  have f: "list_all (failsToResolve brokenBasePage) SKILLS_LIST"
    by (simp add: list_all_iff failsToResolve_def
          fetchFileContent_needs_base[OF brokenBasePage_base])
  have z: "JSZip brokenBasePage" by (simp add: brokenBasePage_def examplePage_def)
  have g: "generateAsync brokenBasePage (assemble brokenBasePage exampleOrder)"
    by (simp add: brokenBasePage_def examplePage_def)
  have "bulkTry brokenBasePage exampleOrder = Inl InvalidURL"
    by (simp add: bulkTry_def brokenBasePage_base)
  then show ?thesis
    using f z g downloadAllSkills_failed[of brokenBasePage exampleOrder InvalidURL exampleUi]
    by (simp add: exampleUi_def)
qed

text \<open>
  Claim C9, amended. When every entry of the catalog fails to resolve while the base
  prefix is found, JSZip is loaded and the serialisation resolves,
  \<open>downloadAllSkills\<close> saves, under the fixed name, an archive that holds the folder
  \<^verbatim>\<open>skills/\<close> and nothing else, raises no alert and leaves the button idle. The alert
  is raised exactly when \<^verbatim>\<open>getBaseUrl\<close> throws, JSZip is missing or the serialisation
  is rejected; a request that fails never raises it.
\<close>

theorem total_failure_still_saves:
  assumes "isSchedule order"
  shows "(list_all (failsToResolve env) SKILLS_LIST \<and> \<not> isl (getBaseUrl env) \<and> JSZip env \<and>
            generateAsync env [(''skills/'', Dir)] \<longrightarrow>
            fst (downloadAllSkills env order u) = None \<and>
            alerts (snd (downloadAllSkills env order u)) = alerts u \<and>
            saved (snd (downloadAllSkills env order u)) =
              saved u @ [(''awesome-econ-ai-skills.zip'', ZipBlob [(''skills/'', Dir)])] \<and>
            allBtn (snd (downloadAllSkills env order u)) = idle ''Download All Skills'' (allBtn u)) \<and>
         (alerts (snd (downloadAllSkills env order u)) \<noteq> alerts u \<longleftrightarrow>
            isl (getBaseUrl env) \<or> \<not> JSZip env \<or> \<not> generateAsync env (assemble env order))"
proof (intro conjI impI)
  assume h: "list_all (failsToResolve env) SKILLS_LIST \<and> \<not> isl (getBaseUrl env) \<and> JSZip env \<and>
            generateAsync env [(''skills/'', Dir)]"
  then have a: "assemble env order = [(''skills/'', Dir)]"
    using assms assemble_all_fail by simp
  then have b: "bulkTry env order = Inr [(''skills/'', Dir)]"
    using h by (simp add: bulkTry_cases)
  show "fst (downloadAllSkills env order u) = None"
    and "alerts (snd (downloadAllSkills env order u)) = alerts u"
    and "saved (snd (downloadAllSkills env order u)) =
              saved u @ [(''awesome-econ-ai-skills.zip'', ZipBlob [(''skills/'', Dir)])]"
    using downloadAllSkills_ok[OF b] by simp_all
  show "allBtn (snd (downloadAllSkills env order u)) = idle ''Download All Skills'' (allBtn u)"
    using b by (cases "allBtn u") (simp_all add: downloadAllSkills_def Let_def busy_def idle_def)
next
  show "alerts (snd (downloadAllSkills env order u)) \<noteq> alerts u \<longleftrightarrow>
            isl (getBaseUrl env) \<or> \<not> JSZip env \<or> \<not> generateAsync env (assemble env order)"
  proof (cases "bulkTry env order")
    case (Inl e)
    then have "isl (getBaseUrl env) \<or> \<not> JSZip env \<or> \<not> generateAsync env (assemble env order)"
      by (auto simp add: bulkTry_cases split: if_splits)
    then show ?thesis using downloadAllSkills_failed[OF Inl] by simp
  next
    case (Inr archive)
    then have "\<not> (isl (getBaseUrl env) \<or> \<not> JSZip env \<or> \<not> generateAsync env (assemble env order))"
      by (auto simp add: bulkTry_cases split: if_splits)
    then show ?thesis using downloadAllSkills_ok[OF Inr] by simp
  qed
qed

theorem total_failure_still_saves_witness:
  "fst (downloadAllSkills offlinePage exampleOrder exampleUi) = None \<and>
   alerts (snd (downloadAllSkills offlinePage exampleOrder exampleUi)) = [] \<and>
   saved (snd (downloadAllSkills offlinePage exampleOrder exampleUi)) =
     [(''awesome-econ-ai-skills.zip'', ZipBlob [(''skills/'', Dir)])]"
proof -
  have f: "list_all (failsToResolve offlinePage) SKILLS_LIST"
    by (simp add: list_all_iff failsToResolve_def offlinePage_fails)
  have b: "\<not> isl (getBaseUrl offlinePage)" by (simp add: offlinePage_base)
  have z: "JSZip offlinePage" by (simp add: offlinePage_def examplePage_def)
  have g: "generateAsync offlinePage [(''skills/'', Dir)]"
    by (simp add: offlinePage_def examplePage_def)
  show ?thesis
    using total_failure_still_saves[OF exampleOrder_schedule, of offlinePage exampleUi] f b z g
    by (simp add: exampleUi_def)
qed


subsection \<open>C10: the fallback body is not validated\<close>

text \<open>
  Claim C10. The check for HTML is applied to the body of the first request only: when
  the first attempt yields nothing and the raw GitHub URL answers successfully, its
  text is the result whatever it is, so the result can begin with \<^verbatim>\<open><!DOCTYPE\<close>.
\<close>

theorem fetchFileContent_fallback_unvalidated:
  assumes "getBaseUrl env = Inr baseUrl"
    and "directAttempt (fetch env (baseUrl @ ''/'' @ relPath)) = None"
    and "fetch env (githubUrl relPath) = Some (Response True st (Some text))"
  shows "snd (fetchFileContent env relPath) = Inr text"
  using assms by (simp add: fetchFileContent_def)

theorem fetchFileContent_fallback_unvalidated_witness:
  "snd (fetchFileContent htmlFallbackPage ''_skills/writing/latex-tables/SKILL.md'') =
     Inr ''<!DOCTYPE html><title>Busy</title>'' \<and>
   looksLikeHtml ''<!DOCTYPE html><title>Busy</title>''"
proof -
  let ?p = "''_skills/writing/latex-tables/SKILL.md''"
  have b: "getBaseUrl htmlFallbackPage = Inr ''/awesome-econ-ai-stuff''"
    by (simp add: getBaseUrl_def htmlFallbackPage_def examplePage_def)
  have d: "directAttempt (fetch htmlFallbackPage (''/awesome-econ-ai-stuff'' @ ''/'' @ ?p)) = None"
    by (simp add: htmlFallbackPage_def examplePage_def startsWith_def directAttempt_def)
  have f: "fetch htmlFallbackPage (githubUrl ?p) =
             Some (Response True ''OK'' (Some ''<!DOCTYPE html><title>Busy</title>''))"
    by (simp add: htmlFallbackPage_def examplePage_def startsWith_def githubUrl_def GITHUB_REPO_def)
  have h: "looksLikeHtml ''<!DOCTYPE html><title>Busy</title>''"
    unfolding looksLikeHtml_iff by (simp add: startsWith_def trimStart_def isWhiteSpace_def)
  show ?thesis
    using fetchFileContent_fallback_unvalidated[OF b d f] h by simp
qed

end
